theory Spec2Isabelle
  imports Main
begin

section \<open>Python values handled by \<open>read_calendar\<close>\<close>

text \<open>
  The repository holds two Python files, \<open>robotica-tokio/python/robotica.py\<close> and
  \<open>robotica-backend/python/robotica.py\<close>. Each defines one function,
  \<open>read_calendar\<close>, which parses an iCalendar document with the \<open>icalendar\<close>
  package, lets \<open>recurring_ical_events\<close> expand it over a window of two dates and
  then copies every property of every occurrence into a fresh dict, dispatching on the
  run-time class of the property value.

  A \<open>datetime.date\<close> is its three fields; dates compare field by field, year first.
\<close>

record date =
  year :: int
  month :: int
  day :: int

definition date_less :: "date \<Rightarrow> date \<Rightarrow> bool" where
  "date_less a b =
     (year a < year b \<or> (year a = year b \<and>
        (month a < month b \<or> (month a = month b \<and> day a < day b))))"

text \<open>
  A \<open>datetime.datetime\<close> is kept as what the conversion \<open>astimezone\<close> reads of it:
  \<open>wall\<close> is the wall-clock reading (year to microsecond, time zone left aside) counted
  in microseconds since 0001-01-01T00:00:00, and \<open>utcoffset\<close> is the result of the
  method \<open>dt.utcoffset()\<close> in microseconds, \<open>None\<close> for a naive value (no
  \<open>tzinfo\<close>, or one that answers \<open>None\<close>). A \<open>datetime.timedelta\<close> and a
  \<open>datetime.time\<close> are counts of microseconds.
\<close>

record datetime =
  wall :: int
  utcoffset :: "int option"

text \<open>
  The values a property of an event can hold, by run-time class, in the order in which
  the \<open>isinstance\<close> tests of the source tell them apart:
  \<^item> \<open>PDateTime\<close>: \<open>datetime.datetime\<close> (a subclass of \<open>date\<close>, tested first);
  \<^item> \<open>PDate\<close>: a \<open>datetime.date\<close> that is not a \<open>datetime\<close>;
  \<^item> \<open>PTimeDelta\<close>, \<open>PTime\<close>: \<open>datetime.timedelta\<close>, \<open>datetime.time\<close>;
  \<^item> \<open>PTuple\<close>: a tuple (a period is a pair of a start and an end or a duration);
  \<^item> \<open>VDDDTypes\<close>: \<open>icalendar.prop.vDDDTypes\<close>, with the wrapped value \<open>.dt\<close>;
  \<^item> \<open>VText\<close>: \<open>icalendar.prop.vText\<close>, a subclass of \<open>str\<close>;
  \<^item> \<open>PInt\<close>: \<open>int\<close> and its subclasses (\<open>bool\<close>, \<open>vInt\<close>, \<open>vBoolean\<close>);
  \<^item> \<open>PStr\<close>: \<open>str\<close> and its subclasses other than \<open>vText\<close>
    (\<open>vUri\<close>, \<open>vCalAddress\<close>, ...);
  \<^item> \<open>PList\<close>: a list (a property that occurs several times in one component);
  \<^item> \<open>PObject\<close>: an object of any other class, tagged with the class name
    (\<open>vRecur\<close>, \<open>vCategory\<close>, \<open>vGeo\<close>, \<open>vBinary\<close>, ...).
\<close>

datatype pyobj =
    PDateTime datetime
  | PDate date
  | PTimeDelta int
  | PTime int
  | PTuple "pyobj list"
  | VDDDTypes pyobj
  | VText string
  | PInt int
  | PStr string
  | PList "pyobj list"
  | PObject string

text \<open>
  Exceptions. The message of a \<open>RuntimeError\<close> is an f-string; it is kept as its
  pieces, literal text and interpolated values, so that what a message mentions can be
  read off. \<open>Raised\<close> is an exception that comes out of a library call, tagged with
  its class name.
\<close>

datatype frag = Lit string | Interp pyobj

datatype error =
    RuntimeError "frag list"
  | KeyError string
  | OverflowError
  | Raised string

text \<open>
  An event (\<open>icalendar.Event\<close>, an ordered dict with string keys) and the dict
  \<open>json_data\<close> built for it are association lists in insertion order.
\<close>

type_synonym pydict = "(string \<times> pyobj) list"

definition keys :: "pydict \<Rightarrow> string list" where
  "keys d = map fst d"

definition getitem :: "pydict \<Rightarrow> string \<Rightarrow> pyobj option" where
  "getitem d k = map_of d k"

text \<open>\<open>d[k] = v\<close>: an existing key keeps its place, a new key goes to the end.\<close>

fun setitem :: "pydict \<Rightarrow> string \<Rightarrow> pyobj \<Rightarrow> pydict" where
  "setitem [] k v = [(k, v)]"
| "setitem ((k', v') # d) k v =
     (if k' = k then (k, v) # d else (k', v') # setitem d k v)"

section \<open>What \<open>read_calendar\<close> calls\<close>

text \<open>
  The library calls are parameters of the model, collected in one record:
  \<^item> \<open>urlopen_read url\<close> is \<open>urllib.request.urlopen(url).read()\<close>;
  \<^item> \<open>from_ical\<close> is \<open>icalendar.Calendar.from_ical\<close>;
  \<^item> \<open>between calendar start end\<close> is
    \<open>recurring_ical_events.of(calendar).between(start, end)\<close>;
  \<^item> \<open>local_utcoffset w\<close> is the offset from UTC, in microseconds, of the host's local
    time zone at the wall-clock reading \<open>w\<close>: \<open>astimezone\<close> reads a naive
    \<open>datetime\<close> as local time and asks the host for the zone. The host's answer
    can be an exception: CPython raises \<open>ValueError\<close> for a naive reading in the
    first day of year 1, and near the end of year 9999 on a host ahead of UTC.
  Each call returns its value or the exception it raises.
\<close>

record 'cal env =
  urlopen_read :: "string \<Rightarrow> error + string"
  from_ical :: "string \<Rightarrow> error + 'cal"
  between :: "'cal \<Rightarrow> date \<Rightarrow> date \<Rightarrow> error + pydict list"
  local_utcoffset :: "int \<Rightarrow> error + int"

text \<open>
  \<open>datetime.max\<close> is 9999-12-31T23:59:59.999999: a wall-clock reading lies in
  \<open>0 ..< max_wall\<close>, with 3652059 days from 0001-01-01 to the end of 9999.
\<close>

definition max_wall :: int where
  "max_wall = 3652059 * 86400 * 1000000"

text \<open>
  \<open>dt.astimezone(timezone.utc)\<close>. The offset of \<open>dt\<close> is its own, or the
  local zone's when \<open>dt\<close> is naive; looking the local zone up can raise. The offset
  is subtracted from the wall clock, which raises \<open>OverflowError\<close> when the result
  leaves the range of \<open>datetime\<close>, and the result is labelled UTC.
\<close>

definition astimezone_utc ::
  "(int \<Rightarrow> error + int) \<Rightarrow> datetime \<Rightarrow> error + datetime" where
  "astimezone_utc localtz dt =
     (case (case utcoffset dt of None \<Rightarrow> localtz (wall dt) | Some off \<Rightarrow> Inr off) of
        Inl e \<Rightarrow> Inl e
      | Inr myoffset \<Rightarrow>
          (let utc = wall dt - myoffset
           in if 0 \<le> utc \<and> utc < max_wall
              then Inr \<lparr>wall = utc, utcoffset = Some 0\<rparr>
              else Inl OverflowError))"

section \<open>\<open>robotica-tokio/python/robotica.py\<close>\<close>

text \<open>Lines 17 to 25: the branch for a \<open>vDDDTypes\<close> value, on its \<open>.dt\<close>.\<close>

fun read_calendar_dt :: "(int \<Rightarrow> error + int) \<Rightarrow> string \<Rightarrow> pyobj \<Rightarrow> error + pyobj" where
  "read_calendar_dt localtz i (PDateTime dt) =
     (case astimezone_utc localtz dt of Inl e \<Rightarrow> Inl e | Inr u \<Rightarrow> Inr (PDateTime u))"
| "read_calendar_dt localtz i (PDate dt) = Inr (PDate dt)"
| "read_calendar_dt localtz i (PTimeDelta dt) = Inr (PTimeDelta dt)"
| "read_calendar_dt localtz i dt =
     Inl (RuntimeError [Lit ''Unknown type for '', Interp dt, Lit '' key '', Interp (PStr i)])"

text \<open>Lines 16 to 33: the value stored under key \<open>i\<close> for the property value \<open>event[i]\<close>.\<close>

fun read_calendar_value :: "(int \<Rightarrow> error + int) \<Rightarrow> string \<Rightarrow> pyobj \<Rightarrow> error + pyobj" where
  "read_calendar_value localtz i (VDDDTypes dt) = read_calendar_dt localtz i dt"
| "read_calendar_value localtz i (VText s) = Inr (VText s)"
| "read_calendar_value localtz i (PInt n) = Inr (PInt n)"
| "read_calendar_value localtz i (PStr s) = Inr (PStr s)"
| "read_calendar_value localtz i v =
     Inl (RuntimeError [Lit ''Unknown type for '', Interp (PStr i)])"

text \<open>Lines 15 to 33: the loop over \<open>event.keys()\<close>, filling \<open>json_data\<close>.\<close>

fun read_calendar_keys ::
  "(int \<Rightarrow> error + int) \<Rightarrow> pydict \<Rightarrow> string list \<Rightarrow> pydict \<Rightarrow> error + pydict" where
  "read_calendar_keys localtz event [] json_data = Inr json_data"
| "read_calendar_keys localtz event (i # rest) json_data =
     (case getitem event i of
        None \<Rightarrow> Inl (KeyError i)
      | Some v \<Rightarrow>
          (case read_calendar_value localtz i v of
             Inl e \<Rightarrow> Inl e
           | Inr x \<Rightarrow> read_calendar_keys localtz event rest (setitem json_data i x)))"

text \<open>Lines 13 to 35: the loop over the events, appending to \<open>result\<close>.\<close>

fun read_calendar_events ::
  "(int \<Rightarrow> error + int) \<Rightarrow> pydict list \<Rightarrow> pydict list \<Rightarrow> error + pydict list" where
  "read_calendar_events localtz [] result = Inr result"
| "read_calendar_events localtz (event # events) result =
     (case read_calendar_keys localtz event (keys event) [] of
        Inl e \<Rightarrow> Inl e
      | Inr json_data \<Rightarrow> read_calendar_events localtz events (result @ [json_data]))"

text \<open>Lines 9 to 36.\<close>

definition read_calendar ::
  "'cal env \<Rightarrow> string \<Rightarrow> date \<Rightarrow> date \<Rightarrow> error + pydict list" where
  "read_calendar E ical_string start_date end_date =
     (case from_ical E ical_string of
        Inl e \<Rightarrow> Inl e
      | Inr calendar \<Rightarrow>
          (case between E calendar start_date end_date of
             Inl e \<Rightarrow> Inl e
           | Inr events \<Rightarrow> read_calendar_events (local_utcoffset E) events []))"

section \<open>\<open>robotica-backend/python/robotica.py\<close>\<close>

text \<open>
  The second file repeats the first line by line and fetches the document itself;
  its embedding is written out again from its own text.
\<close>

fun backend_read_calendar_dt :: "(int \<Rightarrow> error + int) \<Rightarrow> string \<Rightarrow> pyobj \<Rightarrow> error + pyobj" where
  "backend_read_calendar_dt localtz i (PDateTime dt) =
     (case astimezone_utc localtz dt of Inl e \<Rightarrow> Inl e | Inr u \<Rightarrow> Inr (PDateTime u))"
| "backend_read_calendar_dt localtz i (PDate dt) = Inr (PDate dt)"
| "backend_read_calendar_dt localtz i (PTimeDelta dt) = Inr (PTimeDelta dt)"
| "backend_read_calendar_dt localtz i dt =
     Inl (RuntimeError [Lit ''Unknown type for '', Interp dt, Lit '' key '', Interp (PStr i)])"

fun backend_read_calendar_value ::
  "(int \<Rightarrow> error + int) \<Rightarrow> string \<Rightarrow> pyobj \<Rightarrow> error + pyobj" where
  "backend_read_calendar_value localtz i (VDDDTypes dt) = backend_read_calendar_dt localtz i dt"
| "backend_read_calendar_value localtz i (VText s) = Inr (VText s)"
| "backend_read_calendar_value localtz i (PInt n) = Inr (PInt n)"
| "backend_read_calendar_value localtz i (PStr s) = Inr (PStr s)"
| "backend_read_calendar_value localtz i v =
     Inl (RuntimeError [Lit ''Unknown type for '', Interp (PStr i)])"

fun backend_read_calendar_keys ::
  "(int \<Rightarrow> error + int) \<Rightarrow> pydict \<Rightarrow> string list \<Rightarrow> pydict \<Rightarrow> error + pydict" where
  "backend_read_calendar_keys localtz event [] json_data = Inr json_data"
| "backend_read_calendar_keys localtz event (i # rest) json_data =
     (case getitem event i of
        None \<Rightarrow> Inl (KeyError i)
      | Some v \<Rightarrow>
          (case backend_read_calendar_value localtz i v of
             Inl e \<Rightarrow> Inl e
           | Inr x \<Rightarrow> backend_read_calendar_keys localtz event rest (setitem json_data i x)))"

fun backend_read_calendar_events ::
  "(int \<Rightarrow> error + int) \<Rightarrow> pydict list \<Rightarrow> pydict list \<Rightarrow> error + pydict list" where
  "backend_read_calendar_events localtz [] result = Inr result"
| "backend_read_calendar_events localtz (event # events) result =
     (case backend_read_calendar_keys localtz event (keys event) [] of
        Inl e \<Rightarrow> Inl e
      | Inr json_data \<Rightarrow> backend_read_calendar_events localtz events (result @ [json_data]))"

definition backend_read_calendar ::
  "'cal env \<Rightarrow> string \<Rightarrow> date \<Rightarrow> date \<Rightarrow> error + pydict list" where
  "backend_read_calendar E url start_date end_date =
     (case urlopen_read E url of
        Inl e \<Rightarrow> Inl e
      | Inr ical_string \<Rightarrow>
          (case from_ical E ical_string of
             Inl e \<Rightarrow> Inl e
           | Inr calendar \<Rightarrow>
               (case between E calendar start_date end_date of
                  Inl e \<Rightarrow> Inl e
                | Inr events \<Rightarrow> backend_read_calendar_events (local_utcoffset E) events [])))"

section \<open>The canonical value model\<close>

text \<open>
  The five kinds of value a record may hold. \<open>kind_of\<close> classifies a value found in a
  returned record: a \<open>datetime\<close> counts as an instant only when it is zoned at UTC.
  \<open>prop_kind\<close> classifies a property value of an occurrence as the \<open>icalendar\<close>
  package presents it: date-times, dates and durations arrive wrapped in
  \<open>vDDDTypes\<close>, texts and integers as (subclasses of) \<open>str\<close> and \<open>int\<close>.
\<close>

datatype kind = Instant | CivilDate | Duration | Integer | Text

fun kind_of :: "pyobj \<Rightarrow> kind option" where
  "kind_of (PDateTime dt) = (if utcoffset dt = Some 0 then Some Instant else None)"
| "kind_of (PDate d) = Some CivilDate"
| "kind_of (PTimeDelta t) = Some Duration"
| "kind_of (PInt n) = Some Integer"
| "kind_of (VText s) = Some Text"
| "kind_of (PStr s) = Some Text"
| "kind_of v = None"

fun prop_kind :: "pyobj \<Rightarrow> kind option" where
  "prop_kind (VDDDTypes (PDateTime dt)) = Some Instant"
| "prop_kind (VDDDTypes (PDate d)) = Some CivilDate"
| "prop_kind (VDDDTypes (PTimeDelta t)) = Some Duration"
| "prop_kind (PInt n) = Some Integer"
| "prop_kind (VText s) = Some Text"
| "prop_kind (PStr s) = Some Text"
| "prop_kind v = None"

text \<open>
  The moment a \<open>datetime\<close> denotes, in microseconds of UTC since 0001-01-01T00:00:00Z.
  A naive value denotes a moment only by Python's convention that it is local time, and
  none where the host has no answer for its reading.
\<close>

definition utc_instant :: "(int \<Rightarrow> error + int) \<Rightarrow> datetime \<Rightarrow> int option" where
  "utc_instant localtz dt =
     (case utcoffset dt of
        Some off \<Rightarrow> Some (wall dt - off)
      | None \<Rightarrow> (case localtz (wall dt) of Inl e \<Rightarrow> None | Inr off \<Rightarrow> Some (wall dt - off)))"


text \<open>What the message of an exception mentions: the values interpolated into it.\<close>

fun mentions :: "error \<Rightarrow> pyobj \<Rightarrow> bool" where
  "mentions (RuntimeError msg) v = (Interp v \<in> set msg)"
| "mentions (KeyError k) v = (v = PStr k)"
| "mentions e v = False"

section \<open>A worked example\<close>

text \<open>
  Four events. The meeting starts on 2019-03-10 at 10:00 in a zone eleven hours
  ahead of UTC, and was stamped at the same moment, written in UTC: 23:00 on
  2019-03-09. The holiday is an all-day event. The third event carries a
  \<open>GEO\<close> property, which \<open>icalendar\<close> presents as a \<open>vGeo\<close>
  object; the fourth a \<open>DUE\<close> property that is a bare time of day.
\<close>

definition sample_meeting :: pydict where
  "sample_meeting =
     [(''DTSTART'', VDDDTypes (PDateTime \<lparr>wall = 63687808800000000, utcoffset = Some 39600000000\<rparr>)),
      (''DTSTAMP'', VDDDTypes (PDateTime \<lparr>wall = 63687769200000000, utcoffset = Some 0\<rparr>)),
      (''DURATION'', VDDDTypes (PTimeDelta 3600000000)),
      (''SEQUENCE'', PInt 0),
      (''SUMMARY'', VText ''Meeting'')]"

definition sample_holiday :: pydict where
  "sample_holiday =
     [(''DTSTART'', VDDDTypes (PDate \<lparr>year = 2019, month = 3, day = 11\<rparr>)),
      (''SUMMARY'', VText ''Labour Day'')]"

definition sample_located :: pydict where
  "sample_located =
     [(''SUMMARY'', VText ''Shopping''),
      (''GEO'', PObject ''vGeo'')]"

definition sample_timed :: pydict where
  "sample_timed = [(''DUE'', VDDDTypes (PTime 36000000000))]"

text \<open>
  An environment to run the example in. The libraries are stood in for, not modelled.
  A parsed calendar is the list of its events. Five documents parse and any other text
  is refused, among them \<open>BEGIN:VEVENT\<close>, a component that is never closed.
  \<open>meeting-bad-line.ics\<close> stands for the first document with one more line inside
  the meeting, a line without a colon: \<open>icalendar\<close> notes the fault on the event
  (\<open>Event.ignore_exceptions\<close>), skips the line and goes on, so the document parses
  to the events of the first. \<open>empty.ics\<close> is a calendar without events. The
  expansion yields every event of the calendar for a window whose start is not after
  its end and none otherwise. The host is ten hours ahead of UTC and has no answer for
  a naive reading in the first day of year 1 or in the last ten hours of year 9999.
\<close>

definition sample_env :: "pydict list env" where
  "sample_env =
     \<lparr>urlopen_read = (\<lambda>url. if url = ''http://example.org/meeting.ics''
                              then Inr ''meeting.ics'' else Inl (Raised ''URLError'')),
      from_ical = (\<lambda>s. if s = ''meeting.ics'' then Inr [sample_meeting, sample_holiday]
                        else if s = ''located.ics'' then Inr [sample_meeting, sample_located]
                        else if s = ''timed.ics'' then Inr [sample_timed]
                        else if s = ''empty.ics'' then Inr []
                        else if s = ''meeting-bad-line.ics''
                          then Inr [sample_meeting, sample_holiday]
                        else Inl (Raised ''ValueError'')),
      between = (\<lambda>calendar a b. Inr (if date_less b a then [] else calendar)),
      local_utcoffset = (\<lambda>w. if w < 86400000000 \<or> max_wall \<le> w + 36000000000
                              then Inl (Raised ''ValueError'') else Inr 36000000000)\<rparr>"

definition sample_start :: date where
  "sample_start = \<lparr>year = 2019, month = 3, day = 5\<rparr>"

definition sample_end :: date where
  "sample_end = \<lparr>year = 2019, month = 4, day = 1\<rparr>"

text \<open>The records expected for the first document.\<close>

definition sample_records :: "pydict list" where
  "sample_records =
     [[(''DTSTART'', PDateTime \<lparr>wall = 63687769200000000, utcoffset = Some 0\<rparr>),
       (''DTSTAMP'', PDateTime \<lparr>wall = 63687769200000000, utcoffset = Some 0\<rparr>),
       (''DURATION'', PTimeDelta 3600000000),
       (''SEQUENCE'', PInt 0),
       (''SUMMARY'', VText ''Meeting'')],
      [(''DTSTART'', PDate \<lparr>year = 2019, month = 3, day = 11\<rparr>),
       (''SUMMARY'', VText ''Labour Day'')]]"

section \<open>Dicts\<close>

lemma getitem_setitem:
  "getitem (setitem d k v) k' = (if k' = k then Some v else getitem d k')"
  by (induction d) (auto simp: getitem_def)

lemma keys_setitem: "set (keys (setitem d k v)) = insert k (set (keys d))"
  unfolding keys_def by (induction d k v rule: setitem.induct) auto

lemma setitem_new: "k \<notin> set (keys d) \<Longrightarrow> setitem d k v = d @ [(k, v)]"
  by (induction d) (auto simp: keys_def)

lemma getitem_keys: "k \<in> set (keys d) \<longleftrightarrow> getitem d k \<noteq> None"
  by (simp add: keys_def getitem_def map_of_eq_None_iff)

section \<open>The conversion of one value\<close>

lemma astimezone_utc_instant:
  "astimezone_utc tz d =
     (case utc_instant tz d of
        None \<Rightarrow> (case tz (wall d) of Inl e \<Rightarrow> Inl e | Inr off \<Rightarrow> Inl OverflowError)
      | Some i \<Rightarrow> if 0 \<le> i \<and> i < max_wall
                  then Inr \<lparr>wall = i, utcoffset = Some 0\<rparr> else Inl OverflowError)"
  by (simp add: astimezone_utc_def utc_instant_def Let_def split: option.splits sum.splits)

lemma astimezone_utc_Inr:
  assumes "astimezone_utc tz d = Inr u"
  shows "utc_instant tz d = Some (wall u)" and "utcoffset u = Some 0"
  using assms
  by (auto simp: astimezone_utc_instant split: option.splits sum.splits if_splits)

lemma dt_kind: "read_calendar_dt tz k v = Inr x \<Longrightarrow> kind_of x \<noteq> None"
  by (induction tz k v rule: read_calendar_dt.induct)
     (auto dest: astimezone_utc_Inr(2) split: sum.splits)

lemma value_kind: "read_calendar_value tz k v = Inr x \<Longrightarrow> kind_of x \<noteq> None"
  by (induction tz k v rule: read_calendar_value.induct) (auto dest: dt_kind)

lemma dt_unsupported:
  "prop_kind (VDDDTypes v) = None \<Longrightarrow> \<exists>e. read_calendar_dt tz k v = Inl e"
  by (cases v) simp_all

lemma value_unsupported:
  "prop_kind v = None \<Longrightarrow> \<exists>e. read_calendar_value tz k v = Inl e"
  by (cases v) (simp_all add: dt_unsupported del: prop_kind.simps, simp_all)

lemma value_datetime:
  assumes "read_calendar_value tz k (VDDDTypes (PDateTime d)) = Inr x"
  shows "\<exists>i. utc_instant tz d = Some i \<and> x = PDateTime \<lparr>wall = i, utcoffset = Some 0\<rparr>"
proof -
  from assms obtain u where u: "astimezone_utc tz d = Inr u" and x: "x = PDateTime u"
    by (auto split: sum.splits)
  from astimezone_utc_Inr [OF u] have "u = \<lparr>wall = wall u, utcoffset = Some 0\<rparr>"
    by (cases u) simp
  with astimezone_utc_Inr(1) [OF u] x show ?thesis by auto
qed

section \<open>The two loops\<close>

text \<open>A run of the inner loop that returns leaves alone every key it does not visit.\<close>

lemma keys_Inr_out:
  "read_calendar_keys tz ev ks acc = Inr r \<Longrightarrow> k \<notin> set ks \<Longrightarrow> getitem r k = getitem acc k"
  by (induction ks arbitrary: acc)
     (auto simp: getitem_setitem split: option.splits sum.splits)

text \<open>Under a key it visits, it stores the converted value of the event's property.\<close>

lemma keys_Inr_in:
  "read_calendar_keys tz ev ks acc = Inr r \<Longrightarrow> k \<in> set ks \<Longrightarrow>
     \<exists>v x. getitem ev k = Some v \<and> read_calendar_value tz k v = Inr x \<and> getitem r k = Some x"
proof (induction ks arbitrary: acc)
  case Nil
  then show ?case by simp
next
  case (Cons i rest)
  from Cons.prems(1) obtain v x where
    v: "getitem ev i = Some v" and x: "read_calendar_value tz i v = Inr x"
    and r: "read_calendar_keys tz ev rest (setitem acc i x) = Inr r"
    by (auto split: option.splits sum.splits)
  show ?case
  proof (cases "k \<in> set rest")
    case True
    then show ?thesis using Cons.IH [OF r] by simp
  next
    case False
    with Cons.prems(2) have "k = i" by simp
    moreover have "getitem r k = getitem (setitem acc i x) k"
      using keys_Inr_out [OF r False] .
    ultimately show ?thesis using v x by (simp add: getitem_setitem)
  qed
qed

lemma keys_Inr_keys:
  "read_calendar_keys tz ev ks acc = Inr r \<Longrightarrow> set (keys r) = set (keys acc) \<union> set ks"
  by (induction ks arbitrary: acc)
     (auto simp: keys_setitem split: option.splits sum.splits)

lemma keys_Inr_order:
  "read_calendar_keys tz ev ks acc = Inr r \<Longrightarrow> distinct ks \<Longrightarrow>
     set ks \<inter> set (keys acc) = {} \<Longrightarrow> keys r = keys acc @ ks"
proof (induction ks arbitrary: acc)
  case Nil
  then show ?case by simp
next
  case (Cons i rest)
  from Cons.prems(1) obtain v x where
    v: "getitem ev i = Some v" and x: "read_calendar_value tz i v = Inr x"
    and r: "read_calendar_keys tz ev rest (setitem acc i x) = Inr r"
    by (auto split: option.splits sum.splits)
  from Cons.prems(3) have new: "i \<notin> set (keys acc)" by auto
  then have s: "setitem acc i x = acc @ [(i, x)]" by (rule setitem_new)
  have "set rest \<inter> set (keys (setitem acc i x)) = {}"
    using Cons.prems(2,3) by (auto simp: keys_setitem)
  with Cons.IH [OF r] Cons.prems(2) have "keys r = keys (setitem acc i x) @ rest" by simp
  then show ?case by (simp add: s keys_def)
qed

text \<open>One property that cannot be converted stops the inner loop, and with it the outer.\<close>

lemma keys_Inl:
  "k \<in> set ks \<Longrightarrow> getitem ev k = Some v \<Longrightarrow> read_calendar_value tz k v = Inl e \<Longrightarrow>
     \<exists>e'. read_calendar_keys tz ev ks acc = Inl e'"
  by (induction ks arbitrary: acc) (auto split: option.splits sum.splits)

lemma events_Inl:
  "ev \<in> set evs \<Longrightarrow> read_calendar_keys tz ev (keys ev) [] = Inl e \<Longrightarrow>
     \<exists>e'. read_calendar_events tz evs acc = Inl e'"
  by (induction evs arbitrary: acc) (auto split: sum.splits)

text \<open>The outer loop returns exactly when the inner loop returns for every event.\<close>

lemma events_Inr:
  "read_calendar_events tz evs acc = Inr rs \<longleftrightarrow>
     (\<exists>rs'. rs = acc @ rs' \<and>
        list_all2 (\<lambda>ev r. read_calendar_keys tz ev (keys ev) [] = Inr r) evs rs')"
proof (induction evs arbitrary: acc)
  case Nil
  then show ?case by auto
next
  case (Cons ev evs)
  show ?case
  proof (cases "read_calendar_keys tz ev (keys ev) []")
    case (Inl e)
    then show ?thesis by (auto simp: list_all2_Cons1)
  next
    case (Inr r)
    then show ?thesis by (auto simp: Cons.IH list_all2_Cons1)
  qed
qed

text \<open>What a successful call of \<open>read_calendar\<close> amounts to.\<close>

lemma read_calendar_Inr:
  assumes "from_ical E s = Inr cal" and "between E cal a b = Inr evs"
    and "read_calendar E s a b = Inr rs"
  shows "list_all2 (\<lambda>ev r. read_calendar_keys (local_utcoffset E) ev (keys ev) [] = Inr r) evs rs"
  using assms by (simp add: read_calendar_def events_Inr)

lemma read_calendar_record:
  assumes "from_ical E s = Inr cal" and "between E cal a b = Inr evs"
    and "read_calendar E s a b = Inr rs" and "n < length evs"
  shows "length rs = length evs"
    and "read_calendar_keys (local_utcoffset E) (evs ! n) (keys (evs ! n)) [] = Inr (rs ! n)"
  using read_calendar_Inr [OF assms(1-3)] assms(4)
  by (auto simp: list_all2_conv_all_nth)

text \<open>
  The value a record holds under a key is the converted value of the property that its
  occurrence, the one at the same position, holds under that key.
\<close>

lemma read_calendar_property:
  assumes "from_ical E s = Inr cal" and "between E cal a b = Inr evs"
    and "read_calendar E s a b = Inr rs" and "n < length evs"
    and "getitem (evs ! n) k = Some v"
  shows "\<exists>x. read_calendar_value (local_utcoffset E) k v = Inr x \<and> getitem (rs ! n) k = Some x"
proof -
  have run: "read_calendar_keys (local_utcoffset E) (evs ! n) (keys (evs ! n)) [] = Inr (rs ! n)"
    using assms(1-4) by (rule read_calendar_record)
  from assms(5) have "k \<in> set (keys (evs ! n))" by (simp add: getitem_keys)
  from keys_Inr_in [OF run this] assms(5) show ?thesis by auto
qed

text \<open>The evaluation of the example.\<close>

lemma sample_calendar:
  "from_ical sample_env ''meeting.ics'' = Inr [sample_meeting, sample_holiday]"
  "between sample_env [sample_meeting, sample_holiday] sample_start sample_end =
     Inr [sample_meeting, sample_holiday]"
  by (simp_all add: sample_env_def date_less_def sample_start_def sample_end_def)

lemma sample_read_calendar:
  "read_calendar sample_env ''meeting.ics'' sample_start sample_end = Inr sample_records"
  by (simp add: read_calendar_def sample_env_def date_less_def sample_start_def sample_end_def
      sample_meeting_def sample_holiday_def sample_records_def keys_def getitem_def
      astimezone_utc_def max_wall_def)

lemma sample_located_calendar:
  "from_ical sample_env ''located.ics'' = Inr [sample_meeting, sample_located]"
  "between sample_env [sample_meeting, sample_located] sample_start sample_end =
     Inr [sample_meeting, sample_located]"
  by (simp_all add: sample_env_def date_less_def sample_start_def sample_end_def)



section \<open>The second file against the first\<close>

lemma backend_dt_eq: "backend_read_calendar_dt tz i v = read_calendar_dt tz i v"
  by (cases v) simp_all

lemma backend_value_eq: "backend_read_calendar_value tz i v = read_calendar_value tz i v"
  by (cases v) (simp_all add: backend_dt_eq)

lemma backend_keys_eq:
  "backend_read_calendar_keys tz ev ks acc = read_calendar_keys tz ev ks acc"
  by (induction ks arbitrary: acc)
     (simp_all add: backend_value_eq split: option.splits sum.splits)

lemma backend_events_eq:
  "backend_read_calendar_events tz evs acc = read_calendar_events tz evs acc"
  by (induction evs arbitrary: acc)
     (simp_all add: backend_keys_eq split: sum.splits)

section \<open>The records hold canonical values only\<close>

text \<open>
  Claim C1. Whatever the calendar and the window, when the parser and the expansion
  return and \<open>read_calendar\<close> returns records, there is one record for each
  occurrence, it has the keys of its occurrence (no property is dropped), and every
  value in it is of one of the five canonical kinds, a date-time being zoned at UTC.
  When some occurrence has a property whose value is of none of the five shapes, the
  whole call fails.
\<close>

theorem read_calendar_canonical_kinds:
  assumes parsed: "from_ical E s = Inr cal"
    and expanded: "between E cal a b = Inr evs"
  shows "(\<forall>rs. read_calendar E s a b = Inr rs \<longrightarrow>
            list_all2 (\<lambda>ev r. set (keys r) = set (keys ev) \<and>
                          (\<forall>k v. getitem r k = Some v \<longrightarrow> kind_of v \<noteq> None)) evs rs)
       \<and> ((\<exists>ev \<in> set evs. \<exists>k v. getitem ev k = Some v \<and> prop_kind v = None) \<longrightarrow>
            (\<exists>e. read_calendar E s a b = Inl e))"
proof (intro conjI allI impI)
  fix rs
  assume ok: "read_calendar E s a b = Inr rs"
  let ?tz = "local_utcoffset E"
  have each: "list_all2 (\<lambda>ev r. read_calendar_keys ?tz ev (keys ev) [] = Inr r) evs rs"
    using parsed expanded ok by (rule read_calendar_Inr)
  show "list_all2 (\<lambda>ev r. set (keys r) = set (keys ev) \<and>
                     (\<forall>k v. getitem r k = Some v \<longrightarrow> kind_of v \<noteq> None)) evs rs"
    using each
  proof (rule list_all2_mono)
    fix ev r
    assume run: "read_calendar_keys ?tz ev (keys ev) [] = Inr r"
    have same: "set (keys r) = set (keys ev)"
      using keys_Inr_keys [OF run] by (simp add: keys_def)
    have "kind_of v \<noteq> None" if "getitem r k = Some v" for k v
    proof -
      from that have "k \<in> set (keys r)" by (simp add: getitem_keys)
      with same have "k \<in> set (keys ev)" by simp
      from keys_Inr_in [OF run this] that obtain w where
        "read_calendar_value ?tz k w = Inr v" by auto
      then show ?thesis by (rule value_kind)
    qed
    with same show "set (keys r) = set (keys ev) \<and>
        (\<forall>k v. getitem r k = Some v \<longrightarrow> kind_of v \<noteq> None)" by blast
  qed
next
  assume "\<exists>ev \<in> set evs. \<exists>k v. getitem ev k = Some v \<and> prop_kind v = None"
  then obtain ev k v where ev: "ev \<in> set evs" and v: "getitem ev k = Some v"
    and odd: "prop_kind v = None" by blast
  let ?tz = "local_utcoffset E"
  from value_unsupported [OF odd] obtain e where "read_calendar_value ?tz k v = Inl e" ..
  moreover from v have "k \<in> set (keys ev)" by (simp add: getitem_keys)
  ultimately obtain e' where "read_calendar_keys ?tz ev (keys ev) [] = Inl e'"
    using keys_Inl v by blast
  from events_Inl [OF ev this] obtain e'' where
    "read_calendar_events ?tz evs [] = Inl e''" ..
  then show "\<exists>e. read_calendar E s a b = Inl e"
    using parsed expanded by (simp add: read_calendar_def)
qed

text \<open>
  On the example: the two records of the first document, and the failure of the
  document with the event that has a \<open>GEO\<close> property.
\<close>

theorem read_calendar_canonical_kinds_witness:
  "from_ical sample_env ''meeting.ics'' = Inr [sample_meeting, sample_holiday]
   \<and> between sample_env [sample_meeting, sample_holiday] sample_start sample_end =
       Inr [sample_meeting, sample_holiday]
   \<and> read_calendar sample_env ''meeting.ics'' sample_start sample_end = Inr sample_records
   \<and> list_all2 (\<lambda>ev r. set (keys r) = set (keys ev) \<and>
                   (\<forall>k v. getitem r k = Some v \<longrightarrow> kind_of v \<noteq> None))
        [sample_meeting, sample_holiday] sample_records
   \<and> getitem sample_located ''GEO'' = Some (PObject ''vGeo'')
   \<and> prop_kind (PObject ''vGeo'') = None
   \<and> (\<exists>e. read_calendar sample_env ''located.ics'' sample_start sample_end = Inl e)"
proof -
  have odd: "\<exists>ev \<in> set [sample_meeting, sample_located].
      \<exists>k v. getitem ev k = Some v \<and> prop_kind v = None"
    by (rule bexI [of _ sample_located])
       (auto simp: sample_located_def getitem_def intro!: exI [of _ "''GEO''"])
  show ?thesis
    using read_calendar_canonical_kinds [OF sample_calendar]
      read_calendar_canonical_kinds [OF sample_located_calendar] odd
      sample_calendar sample_read_calendar
    by (simp add: sample_located_def getitem_def)
qed

section \<open>Date-times become UTC instants\<close>

text \<open>
  Claim C2. When \<open>read_calendar\<close> returns, a property of an occurrence that
  carries a date-time is found in the record of that occurrence, under the same key,
  as a date-time zoned at UTC that denotes the same moment. Two date-time properties
  that denote the same moment, in whatever zones they are written, are given identical
  values.
\<close>

theorem read_calendar_datetime_utc:
  assumes parsed: "from_ical E s = Inr cal"
    and expanded: "between E cal a b = Inr evs"
    and ok: "read_calendar E s a b = Inr rs"
    and n: "n < length evs"
    and held: "getitem (evs ! n) k = Some (VDDDTypes (PDateTime d))"
  shows "(\<exists>u. getitem (rs ! n) k = Some (PDateTime u) \<and> utcoffset u = Some 0 \<and>
              utc_instant (local_utcoffset E) u = utc_instant (local_utcoffset E) d \<and>
              utc_instant (local_utcoffset E) d = Some (wall u))
       \<and> (\<forall>n' k' d'. n' < length evs \<and>
              getitem (evs ! n') k' = Some (VDDDTypes (PDateTime d')) \<and>
              utc_instant (local_utcoffset E) d' = utc_instant (local_utcoffset E) d \<longrightarrow>
              getitem (rs ! n') k' = getitem (rs ! n) k)"
proof -
  let ?tz = "local_utcoffset E"
  have out: "\<exists>i. utc_instant ?tz c = Some i \<and>
      getitem (rs ! m) j = Some (PDateTime \<lparr>wall = i, utcoffset = Some 0\<rparr>)"
    if "m < length evs" and "getitem (evs ! m) j = Some (VDDDTypes (PDateTime c))" for m j c
  proof -
    from read_calendar_property [OF parsed expanded ok that] obtain x where
      x: "read_calendar_value ?tz j (VDDDTypes (PDateTime c)) = Inr x"
      and stored: "getitem (rs ! m) j = Some x" by blast
    from value_datetime [OF x] stored show ?thesis by auto
  qed
  from out [OF n held] obtain i where i: "utc_instant ?tz d = Some i"
    and here: "getitem (rs ! n) k = Some (PDateTime \<lparr>wall = i, utcoffset = Some 0\<rparr>)"
    by blast
  have first: "\<exists>u. getitem (rs ! n) k = Some (PDateTime u) \<and> utcoffset u = Some 0 \<and>
      utc_instant ?tz u = utc_instant ?tz d \<and> utc_instant ?tz d = Some (wall u)"
    using here i by (simp add: utc_instant_def)
  have second: "getitem (rs ! n') k' = getitem (rs ! n) k"
    if "n' < length evs" and "getitem (evs ! n') k' = Some (VDDDTypes (PDateTime d'))"
      and "utc_instant ?tz d' = utc_instant ?tz d" for n' k' d'
    using out [OF that(1,2)] here i that(3) by auto
  from first second show ?thesis by blast
qed

text \<open>
  On the example: the start of the meeting, 10:00 at eleven hours ahead of UTC, and
  its stamp, 23:00 of the day before in UTC, come out as the same value.
\<close>

theorem read_calendar_datetime_utc_witness:
  "from_ical sample_env ''meeting.ics'' = Inr [sample_meeting, sample_holiday]
   \<and> between sample_env [sample_meeting, sample_holiday] sample_start sample_end =
       Inr [sample_meeting, sample_holiday]
   \<and> read_calendar sample_env ''meeting.ics'' sample_start sample_end = Inr sample_records
   \<and> (0::nat) < length [sample_meeting, sample_holiday]
   \<and> getitem ([sample_meeting, sample_holiday] ! 0) ''DTSTART'' =
       Some (VDDDTypes (PDateTime \<lparr>wall = 63687808800000000, utcoffset = Some 39600000000\<rparr>))
   \<and> getitem ([sample_meeting, sample_holiday] ! 0) ''DTSTAMP'' =
       Some (VDDDTypes (PDateTime \<lparr>wall = 63687769200000000, utcoffset = Some 0\<rparr>))
   \<and> getitem (sample_records ! 0) ''DTSTART'' =
       Some (PDateTime \<lparr>wall = 63687769200000000, utcoffset = Some 0\<rparr>)
   \<and> getitem (sample_records ! 0) ''DTSTAMP'' = getitem (sample_records ! 0) ''DTSTART''"
proof -
  have n: "(0::nat) < length [sample_meeting, sample_holiday]" by simp
  have start: "getitem ([sample_meeting, sample_holiday] ! 0) ''DTSTART'' =
      Some (VDDDTypes (PDateTime \<lparr>wall = 63687808800000000, utcoffset = Some 39600000000\<rparr>))"
    by (simp add: sample_meeting_def getitem_def)
  have stamp: "getitem ([sample_meeting, sample_holiday] ! 0) ''DTSTAMP'' =
      Some (VDDDTypes (PDateTime \<lparr>wall = 63687769200000000, utcoffset = Some 0\<rparr>))"
    by (simp add: sample_meeting_def getitem_def)
  have same: "utc_instant (local_utcoffset sample_env) \<lparr>wall = 63687769200000000, utcoffset = Some 0\<rparr> =
      utc_instant (local_utcoffset sample_env) \<lparr>wall = 63687808800000000, utcoffset = Some 39600000000\<rparr>"
    by (simp add: utc_instant_def)
  from read_calendar_datetime_utc [OF sample_calendar sample_read_calendar n start]
  obtain u where u: "getitem (sample_records ! 0) ''DTSTART'' = Some (PDateTime u)"
      "utcoffset u = Some 0"
      "utc_instant (local_utcoffset sample_env)
         \<lparr>wall = 63687808800000000, utcoffset = Some 39600000000\<rparr> = Some (wall u)"
    and eq: "getitem (sample_records ! 0) ''DTSTAMP'' = getitem (sample_records ! 0) ''DTSTART''"
    using n stamp same by blast
  from u have "u = \<lparr>wall = 63687769200000000, utcoffset = Some 0\<rparr>"
    by (cases u) (simp add: utc_instant_def)
  with u(1) eq show ?thesis
    using sample_calendar sample_read_calendar start stamp by simp
qed

section \<open>Dates pass through\<close>

text \<open>
  Claim C3. When \<open>read_calendar\<close> returns, a property of an occurrence that
  carries a pure calendar date is found in the record of that occurrence, under the
  same key, as that very date: it is not made a date-time and gets no time of day and
  no time zone.
\<close>

theorem read_calendar_date_unchanged:
  assumes parsed: "from_ical E s = Inr cal"
    and expanded: "between E cal a b = Inr evs"
    and ok: "read_calendar E s a b = Inr rs"
    and n: "n < length evs"
    and held: "getitem (evs ! n) k = Some (VDDDTypes (PDate d))"
  shows "getitem (rs ! n) k = Some (PDate d)"
proof -
  from read_calendar_property [OF parsed expanded ok n held] obtain x where
    "read_calendar_value (local_utcoffset E) k (VDDDTypes (PDate d)) = Inr x"
    and "getitem (rs ! n) k = Some x" by blast
  then show ?thesis by simp
qed

text \<open>On the example: the start of the all-day holiday.\<close>

theorem read_calendar_date_unchanged_witness:
  "from_ical sample_env ''meeting.ics'' = Inr [sample_meeting, sample_holiday]
   \<and> between sample_env [sample_meeting, sample_holiday] sample_start sample_end =
       Inr [sample_meeting, sample_holiday]
   \<and> read_calendar sample_env ''meeting.ics'' sample_start sample_end = Inr sample_records
   \<and> (1::nat) < length [sample_meeting, sample_holiday]
   \<and> getitem ([sample_meeting, sample_holiday] ! 1) ''DTSTART'' =
       Some (VDDDTypes (PDate \<lparr>year = 2019, month = 3, day = 11\<rparr>))
   \<and> getitem (sample_records ! 1) ''DTSTART'' = Some (PDate \<lparr>year = 2019, month = 3, day = 11\<rparr>)"
proof -
  have n: "(1::nat) < length [sample_meeting, sample_holiday]" by simp
  have start: "getitem ([sample_meeting, sample_holiday] ! 1) ''DTSTART'' =
      Some (VDDDTypes (PDate \<lparr>year = 2019, month = 3, day = 11\<rparr>))"
    by (simp add: sample_holiday_def getitem_def)
  show ?thesis
    using read_calendar_date_unchanged [OF sample_calendar sample_read_calendar n start]
      sample_calendar sample_read_calendar n start by simp
qed

section \<open>Unknown types\<close>

text \<open>
  Claim C4. An occurrence with a property of an unsupported shape makes the call fail
  with an error that is to identify the name of the property and its raw value. The
  call does fail, but the two \<open>raise\<close> statements differ in what they
  report. For a \<open>vGeo\<close> object under \<open>GEO\<close>, line 33 raises a
  \<open>RuntimeError\<close> whose message interpolates the key alone, so the value is not
  mentioned; for a bare time of day inside a \<open>vDDDTypes\<close> under \<open>DUE\<close>,
  line 25 interpolates both the value and the key.
\<close>

theorem read_calendar_unknown_type_message:
  "read_calendar sample_env ''located.ics'' sample_start sample_end =
     Inl (RuntimeError [Lit ''Unknown type for '', Interp (PStr ''GEO'')])
   \<and> \<not> mentions (RuntimeError [Lit ''Unknown type for '', Interp (PStr ''GEO'')])
          (PObject ''vGeo'')
   \<and> read_calendar sample_env ''timed.ics'' sample_start sample_end =
     Inl (RuntimeError [Lit ''Unknown type for '', Interp (PTime 36000000000),
                        Lit '' key '', Interp (PStr ''DUE'')])"
  by (simp add: read_calendar_def sample_env_def date_less_def sample_start_def sample_end_def
      sample_meeting_def sample_located_def sample_timed_def keys_def getitem_def
      astimezone_utc_def max_wall_def)

section \<open>The window is not checked\<close>




section \<open>What the parser lets through\<close>




section \<open>The two files agree\<close>

text \<open>
  Claim C9. When fetching the URL yields the bytes \<open>ical_string\<close>, the function of
  \<open>robotica-backend\<close> on the URL returns what the function of
  \<open>robotica-tokio\<close> returns on those bytes, for the same window; and the loops
  that build the record of one occurrence are the same function in both files.
\<close>

theorem backend_read_calendar_same:
  assumes fetched: "urlopen_read E url = Inr ical_string"
  shows "backend_read_calendar E url start_date end_date =
           read_calendar E ical_string start_date end_date
       \<and> backend_read_calendar_keys = read_calendar_keys"
proof
  show "backend_read_calendar E url start_date end_date =
      read_calendar E ical_string start_date end_date"
    by (simp add: backend_read_calendar_def read_calendar_def fetched backend_events_eq
        split: sum.splits)
  show "backend_read_calendar_keys = read_calendar_keys"
    by (intro ext) (rule backend_keys_eq)
qed

text \<open>On the example: the URL that yields the first document.\<close>

theorem backend_read_calendar_same_witness:
  "urlopen_read sample_env ''http://example.org/meeting.ics'' = Inr ''meeting.ics''
   \<and> backend_read_calendar sample_env ''http://example.org/meeting.ics'' sample_start sample_end =
       Inr sample_records"
proof -
  have fetched: "urlopen_read sample_env ''http://example.org/meeting.ics'' = Inr ''meeting.ics''"
    by (simp add: sample_env_def)
  from backend_read_calendar_same [OF fetched, of sample_start sample_end]
  show ?thesis using fetched sample_read_calendar by simp
qed

section \<open>The keys of a record\<close>

text \<open>
  Claim C10. When \<open>read_calendar\<close> returns, there is exactly one record for each
  occurrence the expansion gave, in the same order, and the record has the key set of
  its occurrence; the keys of an occurrence being distinct, as those of a dict are,
  they also come in the same order. No key is added, removed or renamed.
\<close>

theorem read_calendar_keys_preserved:
  assumes parsed: "from_ical E s = Inr cal"
    and expanded: "between E cal a b = Inr evs"
    and ok: "read_calendar E s a b = Inr rs"
  shows "length rs = length evs
       \<and> (\<forall>n. n < length evs \<longrightarrow>
            set (keys (rs ! n)) = set (keys (evs ! n)) \<and>
            (distinct (keys (evs ! n)) \<longrightarrow> keys (rs ! n) = keys (evs ! n)))"
proof -
  let ?tz = "local_utcoffset E"
  from read_calendar_Inr [OF parsed expanded ok] have len: "length rs = length evs"
    by (simp add: list_all2_lengthD)
  have "set (keys (rs ! n)) = set (keys (evs ! n)) \<and>
      (distinct (keys (evs ! n)) \<longrightarrow> keys (rs ! n) = keys (evs ! n))"
    if n: "n < length evs" for n
  proof -
    have run: "read_calendar_keys ?tz (evs ! n) (keys (evs ! n)) [] = Inr (rs ! n)"
      using parsed expanded ok n by (rule read_calendar_record)
    have "set (keys (rs ! n)) = set (keys (evs ! n))"
      using keys_Inr_keys [OF run] by (simp add: keys_def)
    moreover have "keys (rs ! n) = keys (evs ! n)" if "distinct (keys (evs ! n))"
      using keys_Inr_order [OF run that] by (simp add: keys_def)
    ultimately show ?thesis by blast
  qed
  with len show ?thesis by blast
qed

text \<open>On the example: the keys of the two records.\<close>

theorem read_calendar_keys_preserved_witness:
  "from_ical sample_env ''meeting.ics'' = Inr [sample_meeting, sample_holiday]
   \<and> between sample_env [sample_meeting, sample_holiday] sample_start sample_end =
       Inr [sample_meeting, sample_holiday]
   \<and> read_calendar sample_env ''meeting.ics'' sample_start sample_end = Inr sample_records
   \<and> length sample_records = length [sample_meeting, sample_holiday]
   \<and> distinct (keys ([sample_meeting, sample_holiday] ! 0))
   \<and> keys (sample_records ! 0) = [''DTSTART'', ''DTSTAMP'', ''DURATION'', ''SEQUENCE'', ''SUMMARY'']
   \<and> keys (sample_records ! 1) = keys ([sample_meeting, sample_holiday] ! 1)"
proof -
  note kept = read_calendar_keys_preserved [OF sample_calendar sample_read_calendar]
  have d0: "distinct (keys ([sample_meeting, sample_holiday] ! 0))"
    by (simp add: sample_meeting_def keys_def)
  have d1: "distinct (keys ([sample_meeting, sample_holiday] ! 1))"
    by (simp add: sample_holiday_def keys_def)
  from kept have len: "length sample_records = length [sample_meeting, sample_holiday]" ..
  from kept have each: "\<forall>n. n < length [sample_meeting, sample_holiday] \<longrightarrow>
      set (keys (sample_records ! n)) = set (keys ([sample_meeting, sample_holiday] ! n)) \<and>
      (distinct (keys ([sample_meeting, sample_holiday] ! n)) \<longrightarrow>
         keys (sample_records ! n) = keys ([sample_meeting, sample_holiday] ! n))" ..
  from each [rule_format, of 0] d0
  have k0: "keys (sample_records ! 0) = keys ([sample_meeting, sample_holiday] ! 0)" by simp
  from each [rule_format, of 1] d1
  have k1: "keys (sample_records ! 1) = keys ([sample_meeting, sample_holiday] ! 1)" by simp
  from k0 have "keys (sample_records ! 0) =
      [''DTSTART'', ''DTSTAMP'', ''DURATION'', ''SEQUENCE'', ''SUMMARY'']"
    by (simp add: sample_meeting_def keys_def)
  with len d0 k1 sample_calendar sample_read_calendar show ?thesis by simp
qed

end
